theory Spec2Isabelle
  imports Main
begin

section \<open>The capture-and-detect screen of DisplayImage.jsx\<close>

text \<open>
  The component \<^verbatim>\<open>RealFaceDetection\<close> keeps six state cells (\<^verbatim>\<open>useState\<close>), asks three
  collaborators for results (camera, file system, BlazeFace on TensorFlow.js) and hands the
  results to the cells' setters. The embedding keeps that shape: the cells are a record, a
  handler is a function from the cells it closes over to the list of setter calls it issues,
  a collaborator is a parameter that returns a value or the thrown error, and the awaited
  completions are the events of a step function.
\<close>

subsection \<open>JavaScript values\<close>

text \<open>A thrown value: the \<^verbatim>\<open>TypeError\<close> of reading a property of \<^verbatim>\<open>undefined\<close>, or whatever a
  collaborator throws or rejects with.\<close>

datatype js_error = TypeError | Rejected string

text \<open>\<^verbatim>\<open>xs[i]\<close> on an array: out of range it is \<^verbatim>\<open>undefined\<close>, here \<open>None\<close>.\<close>

definition js_index :: "'a list \<Rightarrow> nat \<Rightarrow> 'a option" where
  "js_index xs i = (if i < length xs then Some (xs ! i) else None)"

definition bind_err :: "'e + 'a \<Rightarrow> ('a \<Rightarrow> 'e + 'b) \<Rightarrow> 'e + 'b" where
  "bind_err r f = (case r of Inl e \<Rightarrow> Inl e | Inr v \<Rightarrow> f v)"

text \<open>\<^verbatim>\<open>Array.prototype.map\<close> with a callback that may throw: the first throw ends the map.\<close>

fun array_map :: "('a \<Rightarrow> 'e + 'b) \<Rightarrow> 'a list \<Rightarrow> 'e + 'b list" where
  "array_map f [] = Inr []"
| "array_map f (x # xs) =
     bind_err (f x) (\<lambda>y. bind_err (array_map f xs) (\<lambda>ys. Inr (y # ys)))"

subsection \<open>Predictions and detections\<close>

text \<open>A raw prediction of \<^verbatim>\<open>model.estimateFaces(imageTensor, false)\<close>: arrays of numbers. The
  numbers are only passed along, so their type is a parameter \<open>'n\<close>.\<close>

record 'n prediction =
  probability :: "'n list"
  topLeft :: "'n list"
  bottomRight :: "'n list"
  landmarks :: "'n list list"

text \<open>An entry of a detection's \<^verbatim>\<open>landmarks\<close>: \<^verbatim>\<open>{ part, x, y }\<close>. The fields \<^verbatim>\<open>x\<close> and \<^verbatim>\<open>y\<close> are
  named \<open>lm_x\<close> and \<open>lm_y\<close>; a coordinate read out of range is \<^verbatim>\<open>undefined\<close>.\<close>

record 'n landmark =
  part :: string
  lm_x :: "'n option"
  lm_y :: "'n option"

text \<open>The object built by the callback of \<^verbatim>\<open>predictions.map\<close> (lines 66-77). The field
  \<^verbatim>\<open>class\<close> is named \<open>class_label\<close>, the field \<^verbatim>\<open>landmarks\<close> is \<open>face_landmarks\<close>.\<close>

record 'n detection =
  class_label :: string
  score :: "'n option"
  boundingBox :: "'n list"
  face_landmarks :: "'n landmark list"

text \<open>\<^verbatim>\<open>{ part: name, x: prediction.landmarks[i][0], y: prediction.landmarks[i][1] }\<close>: when
  \<^verbatim>\<open>prediction.landmarks[i]\<close> is \<^verbatim>\<open>undefined\<close> the read of its entry throws.\<close>

definition mk_landmark :: "string \<Rightarrow> 'n list list \<Rightarrow> nat \<Rightarrow> js_error + 'n landmark" where
  "mk_landmark name lms i =
     (case js_index lms i of
        None \<Rightarrow> Inl TypeError
      | Some pt \<Rightarrow> Inr \<lparr>part = name, lm_x = js_index pt 0, lm_y = js_index pt 1\<rparr>)"

definition map_prediction :: "'n prediction \<Rightarrow> js_error + 'n detection" where
  "map_prediction p =
     bind_err (mk_landmark ''left_eye'' (landmarks p) 0) (\<lambda>l0.
     bind_err (mk_landmark ''right_eye'' (landmarks p) 1) (\<lambda>l1.
     bind_err (mk_landmark ''nose'' (landmarks p) 2) (\<lambda>l2.
     bind_err (mk_landmark ''mouth_left'' (landmarks p) 3) (\<lambda>l3.
     bind_err (mk_landmark ''mouth_right'' (landmarks p) 4) (\<lambda>l4.
       Inr \<lparr>class_label = ''Hursun'',
            score = js_index (probability p) 0,
            boundingBox = topLeft p @ bottomRight p,
            face_landmarks = [l0, l1, l2, l3, l4]\<rparr>)))))"

subsection \<open>State cells and setter calls\<close>

text \<open>The cells of lines 13-19, with their initial values in \<open>initial_state\<close>. The cell
  \<^verbatim>\<open>image\<close> is named \<open>image_cell\<close>. \<open>console\<close> collects what \<^verbatim>\<open>console.error\<close> received.\<close>

record ('m, 'n) state =
  hasPermission :: "bool option"
  image_cell :: "string option"
  detections :: "'n detection list"
  isLoading :: bool
  isTfReady :: bool
  model :: "'m option"
  console :: "(string \<times> js_error) list"

definition initial_state :: "('m, 'n) state" where
  "initial_state =
     \<lparr>hasPermission = None, image_cell = None, detections = [], isLoading = False,
      isTfReady = False, model = None, console = []\<rparr>"

datatype ('m, 'n) effect =
    SetHasPermission bool
  | SetImage "string option"
  | SetDetections "'n detection list"
  | SetIsLoading bool
  | SetIsTfReady bool
  | SetModel 'm
  | ConsoleError string js_error

fun apply_effect :: "('m, 'n) state \<Rightarrow> ('m, 'n) effect \<Rightarrow> ('m, 'n) state" where
  "apply_effect s (SetHasPermission b) = s\<lparr>hasPermission := Some b\<rparr>"
| "apply_effect s (SetImage v) = s\<lparr>image_cell := v\<rparr>"
| "apply_effect s (SetDetections ds) = s\<lparr>detections := ds\<rparr>"
| "apply_effect s (SetIsLoading b) = s\<lparr>isLoading := b\<rparr>"
| "apply_effect s (SetIsTfReady b) = s\<lparr>isTfReady := b\<rparr>"
| "apply_effect s (SetModel m) = s\<lparr>model := Some m\<rparr>"
| "apply_effect s (ConsoleError msg e) = s\<lparr>console := console s @ [(msg, e)]\<rparr>"

definition run_effects :: "('m, 'n) state \<Rightarrow> ('m, 'n) effect list \<Rightarrow> ('m, 'n) state" where
  "run_effects s es = foldl apply_effect s es"

text \<open>Every state the cells pass through while the calls are applied, the first one included.\<close>

fun states_along :: "('m, 'n) state \<Rightarrow> ('m, 'n) effect list \<Rightarrow> ('m, 'n) state list" where
  "states_along s [] = [s]"
| "states_along s (e # es) = s # states_along (apply_effect s e) es"

text \<open>Truthiness of the cell \<^verbatim>\<open>image\<close>: \<^verbatim>\<open>null\<close> and the empty string are falsy.\<close>

definition truthy_image :: "string option \<Rightarrow> bool" where
  "truthy_image v = (case v of None \<Rightarrow> False | Some u \<Rightarrow> u \<noteq> [])"

subsection \<open>The handlers\<close>

text \<open>The collaborators \<^verbatim>\<open>detectFaces\<close> calls, each returning its value or what it throws.
  \<open>encodeString\<close> stands for \<^verbatim>\<open>tf.util.encodeString(imgB64, 'base64').buffer\<close> wrapped in a
  \<^verbatim>\<open>Uint8Array\<close>.\<close>

record ('m, 't, 'n) services =
  readAsStringAsync :: "string \<Rightarrow> js_error + string"
  encodeString :: "string \<Rightarrow> js_error + nat list"
  decodeJpeg :: "nat list \<Rightarrow> js_error + 't"
  estimateFaces :: "'m \<Rightarrow> 't \<Rightarrow> js_error + 'n prediction list"

text \<open>The \<^verbatim>\<open>try\<close> block of lines 53-82: the value it passes to \<^verbatim>\<open>setDetections\<close>, or the error
  that leaves it.\<close>

definition try_block :: "('m, 't, 'n) services \<Rightarrow> string \<Rightarrow> 'm \<Rightarrow> js_error + 'n detection list" where
  "try_block sv img mdl =
     bind_err (readAsStringAsync sv img) (\<lambda>imgB64.
     bind_err (encodeString sv imgB64) (\<lambda>rawImageData.
     bind_err (decodeJpeg sv rawImageData) (\<lambda>imageTensor.
     bind_err (estimateFaces sv mdl imageTensor) (\<lambda>predictions.
       if length predictions > 0 then array_map map_prediction predictions
       else Inr []))))"

text \<open>What \<^verbatim>\<open>detectFaces\<close> does once its awaits are over: the end of the \<^verbatim>\<open>try\<close> block or the
  \<^verbatim>\<open>catch\<close>, then the \<^verbatim>\<open>finally\<close>.\<close>

definition detect_resume :: "('m, 't, 'n) services \<Rightarrow> string \<Rightarrow> 'm \<Rightarrow> ('m, 'n) effect list" where
  "detect_resume sv img mdl =
     (case try_block sv img mdl of
        Inr ds \<Rightarrow> [SetDetections ds]
      | Inl e \<Rightarrow> [ConsoleError ''Detection Error:'' e]) @ [SetIsLoading False]"

definition detectFaces :: "('m, 't, 'n) services \<Rightarrow> ('m, 'n) state \<Rightarrow> ('m, 'n) effect list" where
  "detectFaces sv s =
     (case image_cell s of
        None \<Rightarrow> []
      | Some img \<Rightarrow>
          if img = [] then []
          else (case model s of
                  None \<Rightarrow> []
                | Some mdl \<Rightarrow> SetIsLoading True # detect_resume sv img mdl))"

text \<open>\<^verbatim>\<open>takePicture\<close> (lines 43-48): \<open>cam\<close> says whether \<^verbatim>\<open>cameraRef.current\<close> is set, \<open>photo\<close> is what
  \<^verbatim>\<open>takePictureAsync\<close> resolves to (the photo's \<^verbatim>\<open>uri\<close>) or rejects with. A rejection is not
  caught: no setter is called.\<close>

definition takePicture :: "bool \<Rightarrow> js_error + string \<Rightarrow> ('m, 'n) effect list" where
  "takePicture cam photo =
     (if cam then (case photo of Inr uri \<Rightarrow> [SetImage (Some uri)] | Inl e \<Rightarrow> []) else [])"

text \<open>The handler of "Capture Another Photo" (line 138), \<^verbatim>\<open>() => setImage(null)\<close>, which the
  specification calls \<^verbatim>\<open>reset()\<close>.\<close>

definition reset :: "('m, 'n) effect list" where
  "reset = [SetImage None]"

subsection \<open>Rendering\<close>

text \<open>What the component returns (lines 108-170), as far as the choice of elements goes: the
  review view shows the preview, the activity indicator, and either the result list (one entry
  per detection) or the "No Face detected" text. The formatting of an entry is left out.\<close>

record 'n review =
  preview :: string
  loading_indicator :: bool
  results :: "'n detection list option"
  no_face_message :: bool

datatype 'n view =
    EmptyView
  | NoAccessText
  | Container (camera_view: bool) (review_view: "'n review option")

definition render_review :: "string \<Rightarrow> ('m, 'n) state \<Rightarrow> 'n review" where
  "render_review uri s =
     \<lparr>preview = uri,
      loading_indicator = isLoading s,
      results = (if length (detections s) > 0 then Some (detections s) else None),
      no_face_message = (\<not> length (detections s) > 0 \<and> \<not> isLoading s)\<rparr>"

definition render :: "('m, 'n) state \<Rightarrow> 'n view" where
  "render s =
     (case hasPermission s of
        None \<Rightarrow> EmptyView
      | Some False \<Rightarrow> NoAccessText
      | Some True \<Rightarrow>
          Container (\<not> truthy_image (image_cell s))
            (case image_cell s of
               None \<Rightarrow> None
             | Some uri \<Rightarrow> if uri = [] then None else Some (render_review uri s)))"

subsection \<open>The overlay\<close>

text \<open>The calls \<^verbatim>\<open>onContextCreate\<close> makes on its drawing context. \<open>Arc x y r\<close> is
  \<^verbatim>\<open>ctx.arc(x, y, r, 0, 2 * Math.PI)\<close>, a full circle; \<open>SetFillStyle\<close> is the assignment to
  \<^verbatim>\<open>ctx.fillStyle\<close>.\<close>

datatype 'n ctx_call =
    ClearRect nat nat nat nat
  | BeginPath
  | Arc "'n option" "'n option" nat
  | SetFillStyle string
  | Fill
  | ClosePath
  | Flush

text \<open>A filled circle on the surface; the surface \<^verbatim>\<open>gl\<close> with the size of its drawing buffer, the
  markers painted into the buffer and the markers last presented; a context on a surface, with
  its current path (the circles added since \<^verbatim>\<open>beginPath\<close>) and fill style.\<close>

record 'n marker =
  centre_x :: "'n option"
  centre_y :: "'n option"
  radius :: nat
  colour :: string

record 'n gl =
  drawingBufferWidth :: nat
  drawingBufferHeight :: nat
  buffer :: "'n marker list"
  presented :: "'n marker list"

record 'n context2d =
  target :: "'n gl"
  path :: "('n option \<times> 'n option \<times> nat) list"
  fillStyle :: string

text \<open>\<^verbatim>\<open>onContextCreate\<close> (lines 91-106) as the list of its context calls, in order; it reads
  \<^verbatim>\<open>detections\<close> from the cells and the buffer size from \<^verbatim>\<open>gl\<close>.\<close>

definition draw_landmark :: "'n landmark \<Rightarrow> 'n ctx_call list" where
  "draw_landmark l = [BeginPath, Arc (lm_x l) (lm_y l) 5, SetFillStyle ''red'', Fill, ClosePath]"

definition onContextCreate :: "('m, 'n) state \<Rightarrow> 'n gl \<Rightarrow> 'n ctx_call list" where
  "onContextCreate s g =
     (if length (detections s) > 0
      then ClearRect 0 0 (drawingBufferWidth g) (drawingBufferHeight g)
           # concat (map (\<lambda>d. concat (map draw_landmark (face_landmarks d))) (detections s))
           @ [Flush]
      else [])"

definition paint :: "'n marker list \<Rightarrow> 'n gl \<Rightarrow> 'n gl" where
  "paint ms g = g\<lparr>buffer := buffer g @ ms\<rparr>"

text \<open>Modelled from the spec: the drawing context (\<^verbatim>\<open>expo-2d-context\<close>) is an external
  collaborator, "a 2D drawing context exposing path/arc/fill primitives and an explicit
  flush/present call". \<open>ctx_exec\<close> gives the primitives their canvas meaning on a drawing buffer
  that is a list of filled markers: \<^verbatim>\<open>fill\<close> paints the current path in the current fill
  style, \<^verbatim>\<open>flush\<close> presents the buffer, a \<^verbatim>\<open>clearRect\<close> over the whole buffer empties it. A
  \<^verbatim>\<open>clearRect\<close> over a part of the buffer is outside the model (\<open>None\<close>);
  \<^verbatim>\<open>onContextCreate\<close> makes none.\<close>

fun ctx_exec :: "'n context2d \<Rightarrow> 'n ctx_call \<Rightarrow> 'n context2d option" where
  "ctx_exec c (ClearRect x y w h) =
     (if x = 0 \<and> y = 0 \<and> w = drawingBufferWidth (target c) \<and> h = drawingBufferHeight (target c)
      then Some (c\<lparr>target := (target c)\<lparr>buffer := []\<rparr>\<rparr>)
      else None)"
| "ctx_exec c BeginPath = Some (c\<lparr>path := []\<rparr>)"
| "ctx_exec c (Arc x y r) = Some (c\<lparr>path := path c @ [(x, y, r)]\<rparr>)"
| "ctx_exec c (SetFillStyle col) = Some (c\<lparr>fillStyle := col\<rparr>)"
| "ctx_exec c Fill =
     Some (c\<lparr>target := paint (map (\<lambda>(x, y, r). \<lparr>centre_x = x, centre_y = y, radius = r,
                                                 colour = fillStyle c\<rparr>) (path c)) (target c)\<rparr>)"
| "ctx_exec c ClosePath = Some c"
| "ctx_exec c Flush = Some (c\<lparr>target := (target c)\<lparr>presented := buffer (target c)\<rparr>\<rparr>)"

fun ctx_run :: "'n context2d \<Rightarrow> 'n ctx_call list \<Rightarrow> 'n context2d option" where
  "ctx_run c [] = Some c"
| "ctx_run c (k # ks) = (case ctx_exec c k of None \<Rightarrow> None | Some c' \<Rightarrow> ctx_run c' ks)"

text \<open>A run of \<^verbatim>\<open>onContextCreate\<close> on a surface. Line 92, \<^verbatim>\<open>new Expo2DContext(gl)\<close>, runs before the
  test of \<^verbatim>\<open>detections.length\<close>. The constructor is library code that is neither in the source
  nor described by the specification, so it is the parameter \<open>ctor\<close>: from the surface to the
  context it returns, with whatever it did to the surface, its path and its fill style. The
  calls of lines 94-104 are made on that context and read the buffer size from its surface.\<close>

definition render_overlay ::
  "('n gl \<Rightarrow> 'n context2d) \<Rightarrow> ('m, 'n) state \<Rightarrow> 'n gl \<Rightarrow> 'n gl option" where
  "render_overlay ctor s g =
     map_option target (ctx_run (ctor g) (onContextCreate s (target (ctor g))))"

text \<open>The picture the specification asks for: a filled circle of radius 5 at each landmark of
  each detection.\<close>

definition landmark_marker :: "'n landmark \<Rightarrow> 'n marker" where
  "landmark_marker l = \<lparr>centre_x = lm_x l, centre_y = lm_y l, radius = 5, colour = ''red''\<rparr>"

definition markers_of :: "'n detection list \<Rightarrow> 'n marker list" where
  "markers_of ds = concat (map (\<lambda>d. map landmark_marker (face_landmarks d)) ds)"

subsection \<open>The component over time\<close>

text \<open>The effect of lines 22-41 runs once after mounting and awaits, in this order, the camera
  permission, \<^verbatim>\<open>tf.ready()\<close> and \<^verbatim>\<open>blazeface.load()\<close>; \<open>init_pc\<close> says which of them it is
  waiting for. \<open>isMounted\<close> is the effect's local flag, cleared by its cleanup function when the
  component is unmounted. A press of "Take Photo" or "Detect Faces" starts a call that is
  completed by a later event; in between the call is in flight. A detection in flight keeps
  the \<^verbatim>\<open>image\<close> and \<^verbatim>\<open>model\<close> its closure read when the button was pressed.

  The cells hold the value last handed to each setter. What React does with a setter call of a
  component that is no longer mounted is not in the source and not in the model.\<close>

datatype init_pc = AwaitPermission | AwaitTfReady | AwaitModel | InitDone

record ('m, 'n) world =
  cells :: "('m, 'n) state"
  isMounted :: bool
  init_pc :: init_pc
  captures_in_flight :: nat
  detections_in_flight :: "(string \<times> 'm) list"

definition initial_world :: "('m, 'n) world" where
  "initial_world =
     \<lparr>cells = initial_state, isMounted = True, init_pc = AwaitPermission,
      captures_in_flight = 0, detections_in_flight = []\<rparr>"

text \<open>What can happen to the component: a promise the effect awaits resolves (the permission
  response with its \<^verbatim>\<open>status\<close>, the runtime, the model) or rejects, which ends the effect since
  nothing catches it; the component is unmounted; a button is pressed; a capture in flight
  settles with the photo's \<^verbatim>\<open>uri\<close> or a rejection; the detection in flight at a position
  settles.\<close>

datatype 'm event =
    PermissionResolved string
  | TfReadyResolved
  | ModelLoaded 'm
  | InitRejected
  | Unmount
  | PressTakePhoto
  | CaptureSettled "js_error + string"
  | PressDetectFaces
  | DetectionSettled nat
  | PressCaptureAnother

text \<open>The three resumptions of the effect (lines 26, 30 and 34), each guarded by the flag.\<close>

definition on_permission :: "bool \<Rightarrow> string \<Rightarrow> ('m, 'n) effect list" where
  "on_permission mounted status =
     (if mounted then [SetHasPermission (status = ''granted'')] else [])"

definition on_tf_ready :: "bool \<Rightarrow> ('m, 'n) effect list" where
  "on_tf_ready mounted = (if mounted then [SetIsTfReady True] else [])"

definition on_model_loaded :: "bool \<Rightarrow> 'm \<Rightarrow> ('m, 'n) effect list" where
  "on_model_loaded mounted loadedModel = (if mounted then [SetModel loadedModel] else [])"

text \<open>What the closure of \<^verbatim>\<open>detectFaces\<close> takes into the \<^verbatim>\<open>try\<close> block when its guard
  \<^verbatim>\<open>image && model\<close> passes.\<close>

definition detect_closure :: "('m, 'n) state \<Rightarrow> (string \<times> 'm) option" where
  "detect_closure s =
     (case image_cell s of
        None \<Rightarrow> None
      | Some img \<Rightarrow>
          if img = [] then None
          else (case model s of None \<Rightarrow> None | Some mdl \<Rightarrow> Some (img, mdl)))"

text \<open>Whether a view contains the camera view with its "Take Photo" button, and whether it
  contains the review view with its two buttons.\<close>

definition camera_shown :: "'n view \<Rightarrow> bool" where
  "camera_shown v = (case v of Container c r \<Rightarrow> c | _ \<Rightarrow> False)"

definition review_shown :: "'n view \<Rightarrow> bool" where
  "review_shown v = (case v of Container c r \<Rightarrow> r \<noteq> None | _ \<Rightarrow> False)"

text \<open>An event can happen when what it completes is awaited or in flight, or, for a press,
  when the component is mounted and shows the button.\<close>

fun enabled :: "('m, 'n) world \<Rightarrow> 'm event \<Rightarrow> bool" where
  "enabled w (PermissionResolved status) = (init_pc w = AwaitPermission)"
| "enabled w TfReadyResolved = (init_pc w = AwaitTfReady)"
| "enabled w (ModelLoaded m) = (init_pc w = AwaitModel)"
| "enabled w InitRejected = (init_pc w \<noteq> InitDone)"
| "enabled w Unmount = isMounted w"
| "enabled w PressTakePhoto = (isMounted w \<and> camera_shown (render (cells w)))"
| "enabled w (CaptureSettled photo) = (0 < captures_in_flight w)"
| "enabled w PressDetectFaces = (isMounted w \<and> review_shown (render (cells w)))"
| "enabled w (DetectionSettled i) = (i < length (detections_in_flight w))"
| "enabled w PressCaptureAnother = (isMounted w \<and> review_shown (render (cells w)))"

text \<open>The setter calls the code makes when the event happens. "Take Photo" is pressed inside the
  camera view, whose ref is \<^verbatim>\<open>cameraRef\<close>, so \<^verbatim>\<open>cameraRef.current\<close> is set. A press of "Detect
  Faces" runs \<^verbatim>\<open>detectFaces\<close> up to its first \<^verbatim>\<open>await\<close>, that is its first setter call if it
  makes any; the settling of the call runs the rest.\<close>

fun event_effects :: "('m, 't, 'n) services \<Rightarrow> ('m, 'n) world \<Rightarrow> 'm event \<Rightarrow> ('m, 'n) effect list" where
  "event_effects sv w (PermissionResolved status) = on_permission (isMounted w) status"
| "event_effects sv w TfReadyResolved = on_tf_ready (isMounted w)"
| "event_effects sv w (ModelLoaded m) = on_model_loaded (isMounted w) m"
| "event_effects sv w InitRejected = []"
| "event_effects sv w Unmount = []"
| "event_effects sv w PressTakePhoto = []"
| "event_effects sv w (CaptureSettled photo) = takePicture True photo"
| "event_effects sv w PressDetectFaces = take 1 (detectFaces sv (cells w))"
| "event_effects sv w (DetectionSettled i) =
     (case detections_in_flight w ! i of (img, mdl) \<Rightarrow> detect_resume sv img mdl)"
| "event_effects sv w PressCaptureAnother = reset"

text \<open>What the event changes besides the cells: the place of the effect, the flag, and the
  calls in flight.\<close>

fun bookkeeping :: "('m, 'n) world \<Rightarrow> 'm event \<Rightarrow> ('m, 'n) world" where
  "bookkeeping w (PermissionResolved status) = w\<lparr>init_pc := AwaitTfReady\<rparr>"
| "bookkeeping w TfReadyResolved = w\<lparr>init_pc := AwaitModel\<rparr>"
| "bookkeeping w (ModelLoaded m) = w\<lparr>init_pc := InitDone\<rparr>"
| "bookkeeping w InitRejected = w\<lparr>init_pc := InitDone\<rparr>"
| "bookkeeping w Unmount = w\<lparr>isMounted := False\<rparr>"
| "bookkeeping w PressTakePhoto = w\<lparr>captures_in_flight := Suc (captures_in_flight w)\<rparr>"
| "bookkeeping w (CaptureSettled photo) = w\<lparr>captures_in_flight := captures_in_flight w - 1\<rparr>"
| "bookkeeping w PressDetectFaces =
     (case detect_closure (cells w) of
        None \<Rightarrow> w
      | Some cl \<Rightarrow> w\<lparr>detections_in_flight := detections_in_flight w @ [cl]\<rparr>)"
| "bookkeeping w (DetectionSettled i) =
     w\<lparr>detections_in_flight := take i (detections_in_flight w) @ drop (Suc i) (detections_in_flight w)\<rparr>"
| "bookkeeping w PressCaptureAnother = w"

definition step :: "('m, 't, 'n) services \<Rightarrow> ('m, 'n) world \<Rightarrow> 'm event \<Rightarrow> ('m, 'n) world" where
  "step sv w ev =
     (if enabled w ev
      then (bookkeeping w ev)\<lparr>cells := run_effects (cells w) (event_effects sv w ev)\<rparr>
      else w)"

definition run_events :: "('m, 't, 'n) services \<Rightarrow> ('m, 'n) world \<Rightarrow> 'm event list \<Rightarrow> ('m, 'n) world" where
  "run_events sv w evs = foldl (step sv) w evs"

text \<open>The invariant that an image is stored, or a capture in flight, only with permission
  granted, and that the permission cell is written only by the first resumption of the effect.\<close>

definition permission_inv :: "('m, 'n) world \<Rightarrow> bool" where
  "permission_inv w \<longleftrightarrow>
     (hasPermission (cells w) = Some True \<or>
        \<not> truthy_image (image_cell (cells w)) \<and> captures_in_flight w = 0) \<and>
     (hasPermission (cells w) = None \<or> init_pc w \<noteq> AwaitPermission)"

subsection \<open>Sample values\<close>

definition sample_prediction :: "int prediction" where
  "sample_prediction =
     \<lparr>probability = [1], topLeft = [10, 20], bottomRight = [110, 140],
      landmarks = [[30, 50], [80, 50], [55, 75], [35, 100], [75, 100], [5, 60]]\<rparr>"

definition sample_services :: "(unit, unit, int) services" where
  "sample_services =
     \<lparr>readAsStringAsync = (\<lambda>uri. Inr ''/9j/4AAQ''),
      encodeString = (\<lambda>b64. Inr [255, 216, 255]),
      decodeJpeg = (\<lambda>bytes. Inr ()),
      estimateFaces = (\<lambda>mdl tensor. Inr [sample_prediction])\<rparr>"

definition granted_state :: "(unit, int) state" where
  "granted_state = run_effects initial_state [SetHasPermission True, SetIsTfReady True, SetModel ()]"

definition captured_state :: "(unit, int) state" where
  "captured_state = run_effects granted_state (takePicture True (Inr ''file:///photo1.jpg''))"

definition detected_state :: "(unit, int) state" where
  "detected_state = run_effects captured_state (detectFaces sample_services captured_state)"

definition failing_services :: "(unit, unit, int) services" where
  "failing_services = sample_services\<lparr>readAsStringAsync := (\<lambda>uri. Inl (Rejected ''ENOENT''))\<rparr>"

definition inference_failing_services :: "(unit, unit, int) services" where
  "inference_failing_services =
     sample_services\<lparr>estimateFaces := (\<lambda>mdl tensor. Inl (Rejected ''model error''))\<rparr>"

definition short_prediction :: "int prediction" where
  "short_prediction =
     \<lparr>probability = [1], topLeft = [10, 20], bottomRight = [110, 140],
      landmarks = [[30, 50], [80, 50], [55, 75], [35, 100]]\<rparr>"

definition blank_gl :: "int gl" where
  "blank_gl = \<lparr>drawingBufferWidth = 300, drawingBufferHeight = 300, buffer = [], presented = []\<rparr>"

definition drawn_gl :: "int gl" where
  "drawn_gl = blank_gl\<lparr>buffer := markers_of (detections detected_state),
                       presented := markers_of (detections detected_state)\<rparr>"


definition clearing_ctor :: "int gl \<Rightarrow> int context2d" where
  "clearing_ctor g = \<lparr>target = g\<lparr>buffer := []\<rparr>, path = [], fillStyle = ''#000000''\<rparr>"

definition unmounted_world :: "(unit, int) world" where
  "unmounted_world =
     run_events sample_services initial_world
       [PermissionResolved ''granted'', TfReadyResolved, ModelLoaded (), PressTakePhoto,
        CaptureSettled (Inr ''file:///photo1.jpg''), PressDetectFaces, PressCaptureAnother,
        PressTakePhoto, Unmount]"

definition early_unmounted_world :: "(unit, int) world" where
  "early_unmounted_world =
     run_events sample_services initial_world [PermissionResolved ''granted'', Unmount]"

section \<open>Auxiliary facts\<close>

subsection \<open>Errors and the mapping of predictions\<close>

lemma bind_err_Inr_iff: "bind_err r f = Inr y \<longleftrightarrow> (\<exists>v. r = Inr v \<and> f v = Inr y)"
  by (cases r) (simp_all add: bind_err_def)

lemma bind_err_Inl_iff:
  "bind_err r f = Inl e \<longleftrightarrow> r = Inl e \<or> (\<exists>v. r = Inr v \<and> f v = Inl e)"
  by (cases r) (simp_all add: bind_err_def)

lemma mk_landmark_Inr_iff:
  "mk_landmark name lms i = Inr l \<longleftrightarrow>
     i < length lms \<and> l = \<lparr>part = name, lm_x = js_index (lms ! i) 0, lm_y = js_index (lms ! i) 1\<rparr>"
  by (auto simp: mk_landmark_def js_index_def)


lemma map_prediction_Inr_iff:
  "map_prediction p = Inr d \<longleftrightarrow>
     5 \<le> length (landmarks p) \<and>
     d = \<lparr>class_label = ''Hursun'', score = js_index (probability p) 0,
          boundingBox = topLeft p @ bottomRight p,
          face_landmarks =
            [\<lparr>part = ''left_eye'', lm_x = js_index (landmarks p ! 0) 0, lm_y = js_index (landmarks p ! 0) 1\<rparr>,
             \<lparr>part = ''right_eye'', lm_x = js_index (landmarks p ! 1) 0, lm_y = js_index (landmarks p ! 1) 1\<rparr>,
             \<lparr>part = ''nose'', lm_x = js_index (landmarks p ! 2) 0, lm_y = js_index (landmarks p ! 2) 1\<rparr>,
             \<lparr>part = ''mouth_left'', lm_x = js_index (landmarks p ! 3) 0, lm_y = js_index (landmarks p ! 3) 1\<rparr>,
             \<lparr>part = ''mouth_right'', lm_x = js_index (landmarks p ! 4) 0, lm_y = js_index (landmarks p ! 4) 1\<rparr>]\<rparr>"
  unfolding map_prediction_def bind_err_Inr_iff mk_landmark_Inr_iff by auto

lemma map_prediction_throws:
  "length (landmarks p) < 5 \<Longrightarrow> map_prediction p = Inl TypeError"
proof -
  assume "length (landmarks p) < 5"
  then have "\<not> 5 \<le> length (landmarks p)"
    by simp
  then have "map_prediction p \<noteq> Inr d" for d
    by (simp add: map_prediction_Inr_iff)
  then obtain e where e: "map_prediction p = Inl e"
    by (cases "map_prediction p") auto
  then have "e = TypeError"
    unfolding map_prediction_def bind_err_Inl_iff
    by (auto simp: mk_landmark_def split: option.splits)
  with e show ?thesis by simp
qed

lemma array_map_throws:
  assumes "\<exists>x \<in> set xs. f x = Inl e" and "\<forall>x \<in> set xs. f x = Inl e \<or> (\<exists>y. f x = Inr y)"
  shows "array_map f xs = Inl e"
  using assms
proof (induction xs)
  case Nil
  then show ?case by simp
next
  case (Cons x xs)
  show ?case
  proof (cases "f x")
    case (Inl e')
    then show ?thesis using Cons.prems(2) by (simp add: bind_err_def)
  next
    case (Inr y)
    then have "\<exists>x \<in> set xs. f x = Inl e"
      using Cons.prems(1) by auto
    then have "array_map f xs = Inl e"
      using Cons.IH Cons.prems(2) by simp
    then show ?thesis using Inr by (simp add: bind_err_def)
  qed
qed

lemma array_map_short_prediction:
  assumes "\<exists>p \<in> set preds. length (landmarks p) < 5"
  shows "array_map map_prediction preds = Inl TypeError"
proof (rule array_map_throws)
  show "\<exists>p \<in> set preds. map_prediction p = Inl TypeError"
    using assms map_prediction_throws by blast
  show "\<forall>p \<in> set preds. map_prediction p = Inl TypeError \<or> (\<exists>d. map_prediction p = Inr d)"
  proof
    fix p
    show "map_prediction p = Inl TypeError \<or> (\<exists>d. map_prediction p = Inr d)"
    proof (cases "5 \<le> length (landmarks p)")
      case True
      then show ?thesis by (simp add: map_prediction_Inr_iff)
    next
      case False
      then show ?thesis by (simp add: map_prediction_throws)
    qed
  qed
qed

text \<open>A prediction with four landmark points: the read of the fifth throws.\<close>

lemma map_prediction_short: "map_prediction short_prediction = Inl TypeError"
  by (simp add: map_prediction_def mk_landmark_def js_index_def bind_err_def
      short_prediction_def)

subsection \<open>detectFaces\<close>

lemma run_effects_Nil: "run_effects s [] = s"
  by (simp add: run_effects_def)

lemma array_map_if: "(if xs \<noteq> [] then array_map f xs else Inr []) = array_map f xs"
  by (cases xs) simp_all

lemma try_block_eq:
  "try_block sv img mdl =
     bind_err (readAsStringAsync sv img) (\<lambda>b64.
     bind_err (encodeString sv b64) (\<lambda>bytes.
     bind_err (decodeJpeg sv bytes) (\<lambda>t.
     bind_err (estimateFaces sv mdl t) (array_map map_prediction))))"
  by (simp add: try_block_def array_map_if)

lemma try_block_Inl_iff:
  "try_block sv img mdl = Inl e \<longleftrightarrow>
     readAsStringAsync sv img = Inl e
   \<or> (\<exists>b64. readAsStringAsync sv img = Inr b64 \<and>
        (encodeString sv b64 = Inl e
       \<or> (\<exists>bytes. encodeString sv b64 = Inr bytes \<and>
            (decodeJpeg sv bytes = Inl e
           \<or> (\<exists>t. decodeJpeg sv bytes = Inr t \<and>
                (estimateFaces sv mdl t = Inl e
               \<or> (\<exists>preds. estimateFaces sv mdl t = Inr preds \<and>
                     array_map map_prediction preds = Inl e)))))))"
  unfolding try_block_eq bind_err_Inl_iff by auto


lemma detectFaces_guarded:
  assumes "image_cell s = Some img" and "img \<noteq> []" and "model s = Some mdl"
  shows "detectFaces sv s = SetIsLoading True # detect_resume sv img mdl"
  using assms by (simp add: detectFaces_def)


lemma detected_state_eq:
  "detected_state =
     \<lparr>hasPermission = Some True, image_cell = Some ''file:///photo1.jpg'',
      detections =
        [\<lparr>class_label = ''Hursun'', score = Some 1, boundingBox = [10, 20, 110, 140],
          face_landmarks =
            [\<lparr>part = ''left_eye'', lm_x = Some 30, lm_y = Some 50\<rparr>,
             \<lparr>part = ''right_eye'', lm_x = Some 80, lm_y = Some 50\<rparr>,
             \<lparr>part = ''nose'', lm_x = Some 55, lm_y = Some 75\<rparr>,
             \<lparr>part = ''mouth_left'', lm_x = Some 35, lm_y = Some 100\<rparr>,
             \<lparr>part = ''mouth_right'', lm_x = Some 75, lm_y = Some 100\<rparr>]\<rparr>],
      isLoading = False, isTfReady = True, model = Some (), console = []\<rparr>"
  by (simp add: detected_state_def captured_state_def granted_state_def initial_state_def
      run_effects_def takePicture_def detectFaces_def detect_resume_def try_block_def
      sample_services_def sample_prediction_def bind_err_def map_prediction_def mk_landmark_def
      js_index_def)

lemma captured_state_eq:
  "captured_state =
     \<lparr>hasPermission = Some True, image_cell = Some ''file:///photo1.jpg'', detections = [],
      isLoading = False, isTfReady = True, model = Some (), console = []\<rparr>"
  by (simp add: captured_state_def granted_state_def initial_state_def run_effects_def
      takePicture_def)

subsection \<open>The overlay\<close>

lemma ctx_run_append:
  "ctx_run c (ks @ ks') = (case ctx_run c ks of None \<Rightarrow> None | Some c' \<Rightarrow> ctx_run c' ks')"
  by (induction ks arbitrary: c) (auto split: option.splits)

lemma ctx_run_draw_landmark:
  "ctx_run c (draw_landmark l) =
     Some \<lparr>target = paint [landmark_marker l] (target c), path = [(lm_x l, lm_y l, 5)],
           fillStyle = ''red''\<rparr>"
  by (simp add: draw_landmark_def landmark_marker_def paint_def)

lemma paint_paint: "paint ms' (paint ms g) = paint (ms @ ms') g"
  by (simp add: paint_def)

lemma paint_Nil: "paint [] g = g"
  by (simp add: paint_def)

lemma ctx_run_landmarks:
  "\<exists>p f. ctx_run c (concat (map draw_landmark ls)) =
     Some \<lparr>target = paint (map landmark_marker ls) (target c), path = p, fillStyle = f\<rparr>"
proof (induction ls arbitrary: c)
  case Nil
  show ?case by (cases c) (simp add: paint_Nil)
next
  case (Cons l ls)
  let ?c = "\<lparr>target = paint [landmark_marker l] (target c), path = [(lm_x l, lm_y l, 5)],
             fillStyle = ''red''\<rparr>"
  obtain p f where "ctx_run ?c (concat (map draw_landmark ls)) =
     Some \<lparr>target = paint (map landmark_marker ls) (target ?c), path = p, fillStyle = f\<rparr>"
    using Cons.IH [of ?c] by blast
  then show ?case
    by (simp add: ctx_run_append ctx_run_draw_landmark paint_paint)
qed

lemma ctx_run_detections:
  "\<exists>p f. ctx_run c (concat (map (\<lambda>d. concat (map draw_landmark (face_landmarks d))) ds)) =
     Some \<lparr>target = paint (markers_of ds) (target c), path = p, fillStyle = f\<rparr>"
proof (induction ds arbitrary: c)
  case Nil
  show ?case by (cases c) (simp add: paint_Nil markers_of_def)
next
  case (Cons d ds)
  obtain p f where 1: "ctx_run c (concat (map draw_landmark (face_landmarks d))) =
     Some \<lparr>target = paint (map landmark_marker (face_landmarks d)) (target c), path = p, fillStyle = f\<rparr>"
    using ctx_run_landmarks by blast
  let ?c = "\<lparr>target = paint (map landmark_marker (face_landmarks d)) (target c), path = p,
             fillStyle = f\<rparr>"
  obtain p' f' where
    "ctx_run ?c (concat (map (\<lambda>d. concat (map draw_landmark (face_landmarks d))) ds)) =
     Some \<lparr>target = paint (markers_of ds) (target ?c), path = p', fillStyle = f'\<rparr>"
    using Cons.IH [of ?c] by blast
  then show ?case
    by (simp add: ctx_run_append 1 paint_paint markers_of_def)
qed

lemma render_overlay_nonempty:
  assumes "detections s \<noteq> []"
  shows "render_overlay ctor s g =
           Some ((target (ctor g))\<lparr>buffer := markers_of (detections s),
                                   presented := markers_of (detections s)\<rparr>)"
proof -
  let ?c = "(ctor g)\<lparr>target := (target (ctor g))\<lparr>buffer := []\<rparr>\<rparr>"
  obtain p f where 1:
    "ctx_run ?c
       (concat (map (\<lambda>d. concat (map draw_landmark (face_landmarks d))) (detections s))) =
     Some \<lparr>target = paint (markers_of (detections s)) (target ?c), path = p, fillStyle = f\<rparr>"
    using ctx_run_detections [of ?c "detections s"] by auto
  show ?thesis
    using assms
    by (simp add: render_overlay_def onContextCreate_def ctx_run_append 1 paint_def)
qed

lemma render_overlay_empty:
  assumes "detections s = []"
  shows "render_overlay ctor s g = Some (target (ctor g))"
  using assms by (simp add: render_overlay_def onContextCreate_def)

subsection \<open>The permission cell over time\<close>

lemma run_events_Nil: "run_events sv w [] = w"
  by (simp add: run_events_def)

lemma run_events_snoc: "run_events sv w (evs @ [ev]) = step sv (run_events sv w evs) ev"
  by (simp add: run_events_def)

lemma run_events_Cons: "run_events sv w (ev # evs) = run_events sv (step sv w ev) evs"
  by (simp add: run_events_def)

lemma detectFaces_closure:
  "detectFaces sv s =
     (case detect_closure s of
        None \<Rightarrow> []
      | Some (img, mdl) \<Rightarrow> SetIsLoading True # detect_resume sv img mdl)"
  by (simp add: detectFaces_def detect_closure_def split: option.splits)

lemma hasPermission_detect_resume:
  "hasPermission (run_effects s (detect_resume sv img mdl)) = hasPermission s"
  by (cases "try_block sv img mdl") (simp_all add: detect_resume_def run_effects_def)

lemma image_cell_detect_resume:
  "image_cell (run_effects s (detect_resume sv img mdl)) = image_cell s"
  by (cases "try_block sv img mdl") (simp_all add: detect_resume_def run_effects_def)

lemma hasPermission_press_detect:
  "hasPermission (run_effects s (take (Suc 0) (detectFaces sv s))) = hasPermission s"
  by (simp add: detectFaces_closure run_effects_def split: option.splits)

lemma image_cell_press_detect:
  "image_cell (run_effects s (take (Suc 0) (detectFaces sv s))) = image_cell s"
  by (simp add: detectFaces_closure run_effects_def split: option.splits)

lemma hasPermission_takePicture:
  "hasPermission (run_effects s (takePicture cam photo)) = hasPermission s"
  by (simp add: takePicture_def run_effects_def split: sum.splits)

lemma hasPermission_on_tf_ready:
  "hasPermission (run_effects s (on_tf_ready b)) = hasPermission s"
  by (simp add: on_tf_ready_def run_effects_def)

lemma hasPermission_on_model_loaded:
  "hasPermission (run_effects s (on_model_loaded b m)) = hasPermission s"
  by (simp add: on_model_loaded_def run_effects_def)

lemma hasPermission_reset: "hasPermission (run_effects s reset) = hasPermission s"
  by (simp add: reset_def run_effects_def)

lemma step_keeps_permission:
  assumes "init_pc w \<noteq> AwaitPermission"
  shows "init_pc (step sv w ev) \<noteq> AwaitPermission \<and>
         hasPermission (cells (step sv w ev)) = hasPermission (cells w)"
proof (cases "enabled w ev")
  case False
  then show ?thesis using assms by (simp add: step_def)
next
  case True
  then show ?thesis
    using assms
    by (cases ev)
       (simp_all add: step_def hasPermission_detect_resume hasPermission_press_detect
          hasPermission_takePicture hasPermission_on_tf_ready hasPermission_on_model_loaded
          hasPermission_reset run_effects_Nil split: option.splits prod.splits)
qed

lemma run_events_keeps_permission:
  assumes "init_pc w \<noteq> AwaitPermission"
  shows "init_pc (run_events sv w evs) \<noteq> AwaitPermission \<and>
         hasPermission (cells (run_events sv w evs)) = hasPermission (cells w)"
proof (induction evs rule: rev_induct)
  case Nil
  show ?case using assms by (simp add: run_events_Nil)
next
  case (snoc ev evs)
  then show ?case
    using step_keeps_permission [of "run_events sv w evs" sv ev]
    by (simp add: run_events_snoc)
qed

lemma camera_shown_render:
  "camera_shown (render s) \<Longrightarrow> hasPermission s = Some True"
  by (auto simp: camera_shown_def render_def split: option.splits bool.splits)

lemma review_shown_render:
  "review_shown (render s) \<Longrightarrow> hasPermission s = Some True"
  by (auto simp: review_shown_def render_def split: option.splits bool.splits)

lemma step_permission_inv:
  assumes "permission_inv w"
  shows "permission_inv (step sv w ev)"
proof (cases "enabled w ev")
  case False
  then show ?thesis using assms by (simp add: step_def)
next
  case en: True
  show ?thesis
  proof (cases ev)
    case (PermissionResolved status)
    then show ?thesis
      using assms en
      by (auto simp: permission_inv_def step_def on_permission_def run_effects_def)
  next
    case TfReadyResolved
    then show ?thesis
      using assms en
      by (auto simp: permission_inv_def step_def on_tf_ready_def run_effects_def)
  next
    case (ModelLoaded m)
    then show ?thesis
      using assms en
      by (auto simp: permission_inv_def step_def on_model_loaded_def run_effects_def)
  next
    case InitRejected
    then show ?thesis
      using assms en by (auto simp: permission_inv_def step_def run_effects_def)
  next
    case Unmount
    then show ?thesis
      using assms en by (auto simp: permission_inv_def step_def run_effects_def)
  next
    case PressTakePhoto
    then show ?thesis
      using assms en camera_shown_render [of "cells w"]
      by (auto simp: permission_inv_def step_def run_effects_def)
  next
    case (CaptureSettled photo)
    then show ?thesis
      using assms en
      by (cases photo) (auto simp: permission_inv_def step_def run_effects_def takePicture_def)
  next
    case PressDetectFaces
    then show ?thesis
      using assms en review_shown_render [of "cells w"]
      by (auto simp: permission_inv_def step_def hasPermission_press_detect
          image_cell_press_detect split: option.splits)
  next
    case (DetectionSettled i)
    then show ?thesis
      using assms en
      by (auto simp: permission_inv_def step_def hasPermission_detect_resume
          image_cell_detect_resume split: prod.splits)
  next
    case PressCaptureAnother
    then show ?thesis
      using assms en review_shown_render [of "cells w"]
      by (auto simp: permission_inv_def step_def run_effects_def reset_def)
  qed
qed

lemma reachable_permission_inv: "permission_inv (run_events sv initial_world evs)"
proof (induction evs rule: rev_induct)
  case Nil
  show ?case
    by (simp add: run_events_Nil permission_inv_def initial_world_def initial_state_def
        truthy_image_def)
next
  case (snoc ev evs)
  then show ?case
    by (simp add: run_events_snoc step_permission_inv)
qed

subsection \<open>The sample worlds and the top of the screen\<close>

lemma unmounted_world_eq:
  "unmounted_world =
     \<lparr>cells = \<lparr>hasPermission = Some True, image_cell = None, detections = [],
               isLoading = True, isTfReady = True, model = Some (), console = []\<rparr>,
      isMounted = False, init_pc = InitDone, captures_in_flight = Suc 0,
      detections_in_flight = [(''file:///photo1.jpg'', ())]\<rparr>"
  by (simp add: unmounted_world_def run_events_def step_def initial_world_def initial_state_def
      run_effects_def on_permission_def on_tf_ready_def on_model_loaded_def takePicture_def
      reset_def detectFaces_def detect_closure_def render_def render_review_def truthy_image_def
      camera_shown_def review_shown_def)

lemma early_unmounted_world_eq:
  "early_unmounted_world =
     \<lparr>cells = \<lparr>hasPermission = Some True, image_cell = None, detections = [],
               isLoading = False, isTfReady = False, model = None, console = []\<rparr>,
      isMounted = False, init_pc = AwaitTfReady, captures_in_flight = 0,
      detections_in_flight = []\<rparr>"
  by (simp add: early_unmounted_world_def run_events_def step_def initial_world_def
      initial_state_def run_effects_def on_permission_def)

lemma render_denied: "hasPermission s = Some False \<Longrightarrow> render s = NoAccessText"
  by (simp add: render_def)

lemma render_camera:
  "hasPermission s = Some True \<Longrightarrow> \<not> truthy_image (image_cell s) \<Longrightarrow>
   render s = Container True None"
  by (auto simp: render_def truthy_image_def split: option.splits)

section \<open>The claims\<close>

subsection \<open>C1: Capture Another Photo\<close>

text \<open>C1 says that \<^verbatim>\<open>reset\<close> clears the stored image handle and the detection set. The handler
  calls \<^verbatim>\<open>setImage(null)\<close> only: after a detection that found a face, the detection set is
  still non-empty once the handler has run.\<close>

theorem reset_keeps_detections_counterexample:
  "detections (run_effects detected_state reset) \<noteq> []"
  by (simp add: detected_state_eq run_effects_def reset_def)

text \<open>C1, amended: \<^verbatim>\<open>reset\<close> clears the stored image handle and changes no other cell, the
  detection set included; with permission granted the screen is back in camera view.\<close>

theorem reset_clears_image_only:
  "run_effects s reset = s\<lparr>image_cell := None\<rparr> \<and>
   (hasPermission s = Some True \<longrightarrow> render (run_effects s reset) = Container True None)"
  by (simp add: run_effects_def reset_def render_def truthy_image_def)

theorem reset_clears_image_only_witness:
  "hasPermission detected_state = Some True \<and>
   image_cell (run_effects detected_state reset) = None \<and>
   render (run_effects detected_state reset) = Container True None"
  using reset_clears_image_only [of detected_state]
  by (simp add: detected_state_eq run_effects_def reset_def render_def truthy_image_def)

subsection \<open>C2: detectFaces without an image or a model\<close>

text \<open>C2: when the image cell is falsy (no image handle) or the model has not been loaded,
  \<^verbatim>\<open>detectFaces\<close> calls no setter: the cells keep their values, and \<^verbatim>\<open>isLoading\<close> is what it
  was in every state the call passes through.\<close>

theorem detectFaces_noop:
  assumes "\<not> truthy_image (image_cell s) \<or> model s = None"
  shows "detectFaces sv s = [] \<and> run_effects s (detectFaces sv s) = s \<and>
         (\<forall>s' \<in> set (states_along s (detectFaces sv s)). isLoading s' = isLoading s)"
proof -
  have "detectFaces sv s = []"
    using assms by (auto simp: detectFaces_def truthy_image_def split: option.splits)
  then show ?thesis by (simp add: run_effects_def)
qed

theorem detectFaces_noop_witness:
  "model granted_state \<noteq> None \<and> image_cell granted_state = None \<and>
   detectFaces sample_services granted_state = [] \<and>
   run_effects granted_state (detectFaces sample_services granted_state) = granted_state"
proof -
  have h: "\<not> truthy_image (image_cell granted_state) \<or> model granted_state = None"
    by (simp add: granted_state_def initial_state_def run_effects_def truthy_image_def)
  show ?thesis
    using detectFaces_noop [OF h, of sample_services]
    by (simp add: granted_state_def initial_state_def run_effects_def)
qed

subsection \<open>C3: a detection that throws\<close>

text \<open>C3: once the guard of \<^verbatim>\<open>detectFaces\<close> has passed, \<^verbatim>\<open>isLoading\<close> is set and, whatever
  happens in the \<^verbatim>\<open>try\<close> block, cleared again at the end. When a step of the block throws, be
  it the file read, the encoding, the decoding, the inference, or the mapping of a prediction
  with fewer than five landmark points, the call logs the thrown error to \<^verbatim>\<open>console.error\<close>,
  calls no other setter than that of \<^verbatim>\<open>isLoading\<close>, and so leaves the detection set as it was
  before the call.\<close>

theorem detectFaces_failure:
  assumes "image_cell s = Some img" and "img \<noteq> []" and "model s = Some mdl"
  shows "map isLoading (states_along s (detectFaces sv s)) = [isLoading s, True, True, False] \<and>
         isLoading (run_effects s (detectFaces sv s)) = False \<and>
         (readAsStringAsync sv img = Inl e
          \<or> readAsStringAsync sv img = Inr b64 \<and> encodeString sv b64 = Inl e
          \<or> readAsStringAsync sv img = Inr b64 \<and> encodeString sv b64 = Inr bytes \<and>
              decodeJpeg sv bytes = Inl e
          \<or> readAsStringAsync sv img = Inr b64 \<and> encodeString sv b64 = Inr bytes \<and>
              decodeJpeg sv bytes = Inr t \<and> estimateFaces sv mdl t = Inl e
          \<or> readAsStringAsync sv img = Inr b64 \<and> encodeString sv b64 = Inr bytes \<and>
              decodeJpeg sv bytes = Inr t \<and> estimateFaces sv mdl t = Inr preds \<and>
              (\<exists>p \<in> set preds. length (landmarks p) < 5) \<and> e = TypeError
          \<longrightarrow>
            detectFaces sv s =
              [SetIsLoading True, ConsoleError ''Detection Error:'' e, SetIsLoading False] \<and>
            detections (run_effects s (detectFaces sv s)) = detections s \<and>
            console (run_effects s (detectFaces sv s)) = console s @ [(''Detection Error:'', e)]) \<and>
         (\<forall>e'. try_block sv img mdl = Inl e' \<longrightarrow>
            detectFaces sv s =
              [SetIsLoading True, ConsoleError ''Detection Error:'' e', SetIsLoading False] \<and>
            detections (run_effects s (detectFaces sv s)) = detections s \<and>
            console (run_effects s (detectFaces sv s)) = console s @ [(''Detection Error:'', e')])"
proof -
  have d: "detectFaces sv s = SetIsLoading True # detect_resume sv img mdl"
    using assms by (rule detectFaces_guarded)
  have caught: "detectFaces sv s =
              [SetIsLoading True, ConsoleError ''Detection Error:'' e', SetIsLoading False] \<and>
            detections (run_effects s (detectFaces sv s)) = detections s \<and>
            console (run_effects s (detectFaces sv s)) = console s @ [(''Detection Error:'', e')]"
    if "try_block sv img mdl = Inl e'" for e'
    using that by (simp add: d detect_resume_def run_effects_def)
  have flag: "map isLoading (states_along s (detectFaces sv s)) = [isLoading s, True, True, False]"
    "isLoading (run_effects s (detectFaces sv s)) = False"
    by (cases "try_block sv img mdl"; simp add: d detect_resume_def run_effects_def)+
  have thrown: "try_block sv img mdl = Inl e"
    if "readAsStringAsync sv img = Inl e
          \<or> readAsStringAsync sv img = Inr b64 \<and> encodeString sv b64 = Inl e
          \<or> readAsStringAsync sv img = Inr b64 \<and> encodeString sv b64 = Inr bytes \<and>
              decodeJpeg sv bytes = Inl e
          \<or> readAsStringAsync sv img = Inr b64 \<and> encodeString sv b64 = Inr bytes \<and>
              decodeJpeg sv bytes = Inr t \<and> estimateFaces sv mdl t = Inl e
          \<or> readAsStringAsync sv img = Inr b64 \<and> encodeString sv b64 = Inr bytes \<and>
              decodeJpeg sv bytes = Inr t \<and> estimateFaces sv mdl t = Inr preds \<and>
              (\<exists>p \<in> set preds. length (landmarks p) < 5) \<and> e = TypeError"
    using that
  proof (elim disjE conjE)
    assume "readAsStringAsync sv img = Inl e"
    then show ?thesis by (simp add: try_block_Inl_iff)
  next
    assume "readAsStringAsync sv img = Inr b64" and "encodeString sv b64 = Inl e"
    then show ?thesis by (simp add: try_block_Inl_iff)
  next
    assume "readAsStringAsync sv img = Inr b64" and "encodeString sv b64 = Inr bytes"
      and "decodeJpeg sv bytes = Inl e"
    then show ?thesis by (simp add: try_block_Inl_iff)
  next
    assume "readAsStringAsync sv img = Inr b64" and "encodeString sv b64 = Inr bytes"
      and "decodeJpeg sv bytes = Inr t" and "estimateFaces sv mdl t = Inl e"
    then show ?thesis by (simp add: try_block_Inl_iff)
  next
    assume "readAsStringAsync sv img = Inr b64" and "encodeString sv b64 = Inr bytes"
      and "decodeJpeg sv bytes = Inr t" and "estimateFaces sv mdl t = Inr preds"
      and "\<exists>p \<in> set preds. length (landmarks p) < 5" and "e = TypeError"
    then show ?thesis
      by (simp add: try_block_Inl_iff array_map_short_prediction)
  qed
  from flag caught thrown show ?thesis
    by blast
qed

theorem detectFaces_failure_witness:
  "readAsStringAsync failing_services ''file:///photo1.jpg'' = Inl (Rejected ''ENOENT'') \<and>
   detectFaces failing_services detected_state =
     [SetIsLoading True, ConsoleError ''Detection Error:'' (Rejected ''ENOENT''),
      SetIsLoading False] \<and>
   estimateFaces inference_failing_services () () = Inl (Rejected ''model error'') \<and>
   detectFaces inference_failing_services detected_state =
     [SetIsLoading True, ConsoleError ''Detection Error:'' (Rejected ''model error''),
      SetIsLoading False] \<and>
   detections (run_effects detected_state (detectFaces inference_failing_services detected_state)) =
     detections detected_state \<and>
   detections detected_state \<noteq> [] \<and>
   isLoading (run_effects detected_state (detectFaces inference_failing_services detected_state)) =
     False"
proof -
  have g: "image_cell detected_state = Some ''file:///photo1.jpg''"
    "''file:///photo1.jpg'' \<noteq> []" "model detected_state = Some ()"
    by (simp_all add: detected_state_eq)
  have r: "readAsStringAsync failing_services ''file:///photo1.jpg'' = Inl (Rejected ''ENOENT'')"
    by (simp add: failing_services_def)
  have i: "readAsStringAsync inference_failing_services ''file:///photo1.jpg'' = Inr ''/9j/4AAQ''"
    "encodeString inference_failing_services ''/9j/4AAQ'' = Inr [255, 216, 255]"
    "decodeJpeg inference_failing_services [255, 216, 255] = Inr ()"
    "estimateFaces inference_failing_services () () = Inl (Rejected ''model error'')"
    by (simp_all add: inference_failing_services_def sample_services_def)
  have n: "detections detected_state \<noteq> []"
    by (simp add: detected_state_eq)
  from detectFaces_failure [OF g, of failing_services "Rejected ''ENOENT''"] r
  have 1: "detectFaces failing_services detected_state =
     [SetIsLoading True, ConsoleError ''Detection Error:'' (Rejected ''ENOENT''),
      SetIsLoading False]"
    by blast
  from detectFaces_failure [OF g, of inference_failing_services "Rejected ''model error''"
      "''/9j/4AAQ''" "[255, 216, 255]" "()"] i
  have 2: "detectFaces inference_failing_services detected_state =
     [SetIsLoading True, ConsoleError ''Detection Error:'' (Rejected ''model error''),
      SetIsLoading False]"
    and 3: "detections (run_effects detected_state
               (detectFaces inference_failing_services detected_state)) =
            detections detected_state"
    and 4: "isLoading (run_effects detected_state
               (detectFaces inference_failing_services detected_state)) = False"
    by blast+
  from r i(4) 1 2 3 4 n show ?thesis
    by blast
qed

subsection \<open>C4: a detection that completes\<close>



subsection \<open>C5: the mapping of a prediction\<close>

text \<open>C5: a prediction with at least five landmark points is mapped to a detection, and every
  detection the mapping produces has exactly five landmarks, named \<^verbatim>\<open>left_eye\<close>,
  \<^verbatim>\<open>right_eye\<close>, \<^verbatim>\<open>nose\<close>, \<^verbatim>\<open>mouth_left\<close>, \<^verbatim>\<open>mouth_right\<close> in this order, the i-th with
  the coordinates at positions 0 and 1 of the i-th landmark point of the prediction.\<close>

theorem map_prediction_landmarks:
  "(5 \<le> length (landmarks p) \<longrightarrow> (\<exists>d. map_prediction p = Inr d)) \<and>
   (\<forall>d. map_prediction p = Inr d \<longrightarrow>
      length (face_landmarks d) = 5 \<and>
      map part (face_landmarks d) =
        [''left_eye'', ''right_eye'', ''nose'', ''mouth_left'', ''mouth_right''] \<and>
      (\<forall>i < 5. i < length (landmarks p) \<and>
         lm_x (face_landmarks d ! i) = js_index (landmarks p ! i) 0 \<and>
         lm_y (face_landmarks d ! i) = js_index (landmarks p ! i) 1))"
proof (intro conjI allI impI)
  assume "5 \<le> length (landmarks p)"
  then show "\<exists>d. map_prediction p = Inr d"
    by (simp add: map_prediction_Inr_iff)
next
  fix d
  assume r: "map_prediction p = Inr d"
  then have len: "5 \<le> length (landmarks p)"
    and fl: "face_landmarks d =
            [\<lparr>part = ''left_eye'', lm_x = js_index (landmarks p ! 0) 0, lm_y = js_index (landmarks p ! 0) 1\<rparr>,
             \<lparr>part = ''right_eye'', lm_x = js_index (landmarks p ! 1) 0, lm_y = js_index (landmarks p ! 1) 1\<rparr>,
             \<lparr>part = ''nose'', lm_x = js_index (landmarks p ! 2) 0, lm_y = js_index (landmarks p ! 2) 1\<rparr>,
             \<lparr>part = ''mouth_left'', lm_x = js_index (landmarks p ! 3) 0, lm_y = js_index (landmarks p ! 3) 1\<rparr>,
             \<lparr>part = ''mouth_right'', lm_x = js_index (landmarks p ! 4) 0, lm_y = js_index (landmarks p ! 4) 1\<rparr>]"
    by (simp_all add: map_prediction_Inr_iff)
  show "length (face_landmarks d) = 5"
    by (simp add: fl)
  show "map part (face_landmarks d) =
        [''left_eye'', ''right_eye'', ''nose'', ''mouth_left'', ''mouth_right'']"
    by (simp add: fl)
  fix i :: nat
  assume "i < 5"
  then have i: "i = 0 \<or> i = 1 \<or> i = 2 \<or> i = 3 \<or> i = 4"
    by arith
  show "i < length (landmarks p)"
    using len \<open>i < 5\<close> by simp
  show "lm_x (face_landmarks d ! i) = js_index (landmarks p ! i) 0"
    using i by (elim disjE) (simp_all add: fl)
  show "lm_y (face_landmarks d ! i) = js_index (landmarks p ! i) 1"
    using i by (elim disjE) (simp_all add: fl)
qed

theorem map_prediction_landmarks_witness:
  "5 \<le> length (landmarks sample_prediction) \<and>
   (\<exists>d. map_prediction sample_prediction = Inr d \<and>
      map part (face_landmarks d) =
        [''left_eye'', ''right_eye'', ''nose'', ''mouth_left'', ''mouth_right''] \<and>
      lm_x (face_landmarks d ! 2) = Some 55 \<and> lm_y (face_landmarks d ! 2) = Some 75)"
proof -
  have l: "5 \<le> length (landmarks sample_prediction)"
    by (simp add: sample_prediction_def)
  with map_prediction_landmarks [of sample_prediction]
  obtain d where d: "map_prediction sample_prediction = Inr d"
    by blast
  with map_prediction_landmarks [of sample_prediction]
  have "map part (face_landmarks d) =
          [''left_eye'', ''right_eye'', ''nose'', ''mouth_left'', ''mouth_right'']"
    and "lm_x (face_landmarks d ! 2) = js_index (landmarks sample_prediction ! 2) 0"
    and "lm_y (face_landmarks d ! 2) = js_index (landmarks sample_prediction ! 2) 1"
    by simp_all
  then show ?thesis
    using l d by (simp add: sample_prediction_def js_index_def)
qed

subsection \<open>C6: the permission response\<close>

text \<open>C6: take the component while it awaits the permission response, the permission cell
  still \<^verbatim>\<open>null\<close>. After a response with a status other than \<^verbatim>\<open>granted\<close>, and after any further
  events, the camera view is not shown, and the screen of the component, if it was mounted when
  the response came, is the "No access to camera" text. After the response \<^verbatim>\<open>granted\<close> to the
  mounted component, and after any further events, the screen shows the camera view whenever no
  image is stored.\<close>

theorem permission_contract:
  assumes "init_pc w = AwaitPermission" and "hasPermission (cells w) = None"
  shows "(status \<noteq> ''granted'' \<longrightarrow>
           (\<forall>evs. \<not> camera_shown (render (cells (run_events sv w (PermissionResolved status # evs)))) \<and>
                  (isMounted w \<longrightarrow>
                     render (cells (run_events sv w (PermissionResolved status # evs))) =
                       NoAccessText))) \<and>
         (status = ''granted'' \<and> isMounted w \<longrightarrow>
           (\<forall>evs. \<not> truthy_image (image_cell (cells (run_events sv w (PermissionResolved status # evs)))) \<longrightarrow>
                  render (cells (run_events sv w (PermissionResolved status # evs))) =
                    Container True None))"
proof -
  let ?w = "step sv w (PermissionResolved status)"
  have pc: "init_pc ?w \<noteq> AwaitPermission"
    and hp: "hasPermission (cells ?w) = (if isMounted w then Some (status = ''granted'') else None)"
    using assms by (simp_all add: step_def on_permission_def run_effects_def)
  have later: "hasPermission (cells (run_events sv w (PermissionResolved status # evs))) =
        (if isMounted w then Some (status = ''granted'') else None)" for evs
    using run_events_keeps_permission [OF pc, of sv evs] hp by (simp add: run_events_Cons)
  show ?thesis
  proof (intro conjI impI allI)
    fix evs
    assume "status \<noteq> ''granted''"
    then have "hasPermission (cells (run_events sv w (PermissionResolved status # evs))) \<noteq>
        Some True"
      using later [of evs] by simp
    then show "\<not> camera_shown (render (cells (run_events sv w (PermissionResolved status # evs))))"
      using camera_shown_render by blast
  next
    fix evs
    assume "status \<noteq> ''granted''" and "isMounted w"
    then have "hasPermission (cells (run_events sv w (PermissionResolved status # evs))) =
        Some False"
      using later [of evs] by simp
    then show "render (cells (run_events sv w (PermissionResolved status # evs))) = NoAccessText"
      by (rule render_denied)
  next
    fix evs
    assume "status = ''granted'' \<and> isMounted w"
      and "\<not> truthy_image (image_cell (cells (run_events sv w (PermissionResolved status # evs))))"
    then show "render (cells (run_events sv w (PermissionResolved status # evs))) =
                 Container True None"
      using later [of evs] by (simp add: render_camera)
  qed
qed

theorem permission_contract_witness:
  "isMounted (initial_world :: (unit, int) world) \<and>
   render (cells (run_events sample_services (initial_world :: (unit, int) world)
      [PermissionResolved ''denied'', TfReadyResolved, ModelLoaded (), PressTakePhoto,
       CaptureSettled (Inr ''file:///photo1.jpg'')])) = NoAccessText \<and>
   render (cells (run_events sample_services (initial_world :: (unit, int) world)
      [PermissionResolved ''granted'', TfReadyResolved])) = Container True None"
proof -
  have h: "init_pc (initial_world :: (unit, int) world) = AwaitPermission"
    "hasPermission (cells (initial_world :: (unit, int) world)) = None"
    by (simp_all add: initial_world_def initial_state_def)
  have m: "isMounted (initial_world :: (unit, int) world)"
    by (simp add: initial_world_def)
  have i: "\<not> truthy_image (image_cell (cells (run_events sample_services
      (initial_world :: (unit, int) world) [PermissionResolved ''granted'', TfReadyResolved])))"
    by (simp add: run_events_def step_def initial_world_def initial_state_def run_effects_def
        on_permission_def on_tf_ready_def truthy_image_def)
  from permission_contract [OF h, of "''denied''" sample_services]
    permission_contract [OF h, of "''granted''" sample_services] i m
  show ?thesis by simp
qed

subsection \<open>C7: the "No Face detected" text\<close>

text \<open>C7: with an image stored and an empty detection set, the "No Face detected" text of the
  review view is shown exactly when \<^verbatim>\<open>isLoading\<close> is false and the activity indicator exactly
  when it is true, so never both. The review view is what the screen shows in such a state when
  permission is granted, and permission is granted in every such state the component reaches
  from its initial one.\<close>

theorem no_face_message_iff_not_loading:
  assumes "image_cell s = Some uri" and "uri \<noteq> []" and "detections s = []"
  shows "(no_face_message (render_review uri s) \<longleftrightarrow> \<not> isLoading s) \<and>
         (loading_indicator (render_review uri s) \<longleftrightarrow> isLoading s) \<and>
         \<not> (loading_indicator (render_review uri s) \<and> no_face_message (render_review uri s)) \<and>
         (hasPermission s = Some True \<longrightarrow>
            render s = Container False (Some (render_review uri s))) \<and>
         (s = cells (run_events sv initial_world evs) \<longrightarrow> hasPermission s = Some True)"
proof -
  have "hasPermission s = Some True" if "s = cells (run_events sv initial_world evs)"
    using reachable_permission_inv [of sv evs] assms(1,2) that
    by (simp add: permission_inv_def truthy_image_def)
  then show ?thesis
    using assms by (simp add: render_def render_review_def truthy_image_def)
qed

theorem no_face_message_iff_not_loading_witness:
  "captured_state =
     cells (run_events sample_services initial_world
       [PermissionResolved ''granted'', TfReadyResolved, ModelLoaded (), PressTakePhoto,
        CaptureSettled (Inr ''file:///photo1.jpg'')]) \<and>
   detections captured_state = [] \<and> \<not> isLoading captured_state \<and>
   render captured_state =
     Container False (Some (render_review ''file:///photo1.jpg'' captured_state)) \<and>
   no_face_message (render_review ''file:///photo1.jpg'' captured_state) \<and>
   \<not> loading_indicator (render_review ''file:///photo1.jpg'' captured_state)"
proof -
  let ?evs = "[PermissionResolved ''granted'', TfReadyResolved, ModelLoaded (), PressTakePhoto,
               CaptureSettled (Inr ''file:///photo1.jpg'')]"
  have r: "captured_state = cells (run_events sample_services initial_world ?evs)"
    by (simp add: captured_state_eq run_events_def step_def initial_world_def initial_state_def
      run_effects_def on_permission_def on_tf_ready_def on_model_loaded_def takePicture_def
      render_def truthy_image_def camera_shown_def)
  have l: "\<not> isLoading captured_state"
    by (simp add: captured_state_eq)
  have "image_cell captured_state = Some ''file:///photo1.jpg''"
    and "''file:///photo1.jpg'' \<noteq> []" and d: "detections captured_state = []"
    by (simp_all add: captured_state_eq)
  note t = no_face_message_iff_not_loading [OF this, of sample_services ?evs]
  from t r have "hasPermission captured_state = Some True"
    by blast
  with t l have "render captured_state =
      Container False (Some (render_review ''file:///photo1.jpg'' captured_state))"
    and "no_face_message (render_review ''file:///photo1.jpg'' captured_state)"
    and "\<not> loading_indicator (render_review ''file:///photo1.jpg'' captured_state)"
    by blast+
  with r d l show ?thesis
    by blast
qed

subsection \<open>C8: the overlay is idempotent\<close>

text \<open>C8: whatever the constructor of the context does, a run of \<^verbatim>\<open>onContextCreate\<close> with a
  non-empty detection set leaves in the drawing buffer, and presents, one filled red circle of
  radius 5 per landmark of each detection at the landmark's coordinates (\<open>markers_of\<close>) and
  nothing of what the surface held before; a second run with the same detection set on the
  surface the first one left gives the same buffer and the same picture. With an empty
  detection set a run makes no call on the context, and with a constructor that presents
  nothing the picture presented after one run and after two is the one presented before.\<close>

theorem render_overlay_idempotent:
  "\<exists>g' g''. render_overlay ctor s g = Some g' \<and> render_overlay ctor s g' = Some g'' \<and>
     (detections s \<noteq> [] \<longrightarrow>
        presented g' = markers_of (detections s) \<and> buffer g' = markers_of (detections s) \<and>
        presented g'' = presented g' \<and> buffer g'' = buffer g') \<and>
     (detections s = [] \<longrightarrow>
        g' = target (ctor g) \<and> g'' = target (ctor g') \<and>
        ((\<forall>h. presented (target (ctor h)) = presented h) \<longrightarrow>
           presented g' = presented g \<and> presented g'' = presented g'))"
proof (cases "detections s = []")
  case True
  then show ?thesis
    by (simp add: render_overlay_empty)
next
  case False
  then show ?thesis
    by (simp add: render_overlay_nonempty)
qed

theorem render_overlay_idempotent_witness:
  "detections detected_state \<noteq> [] \<and>
   render_overlay clearing_ctor detected_state blank_gl = Some drawn_gl \<and>
   render_overlay clearing_ctor detected_state drawn_gl = Some drawn_gl \<and>
   detections captured_state = [] \<and>
   (\<exists>g'. render_overlay clearing_ctor captured_state drawn_gl = Some g' \<and>
         presented g' = presented drawn_gl \<and>
         (\<exists>g''. render_overlay clearing_ctor captured_state g' = Some g'' \<and>
                presented g'' = presented drawn_gl))"
proof -
  have n: "detections detected_state \<noteq> []" and e: "detections captured_state = []"
    by (simp_all add: detected_state_eq captured_state_eq)
  have p: "\<forall>h. presented (target (clearing_ctor h)) = presented h"
    by (simp add: clearing_ctor_def)
  have 1: "render_overlay clearing_ctor detected_state blank_gl = Some drawn_gl"
    by (simp add: render_overlay_nonempty [OF n] clearing_ctor_def drawn_gl_def blank_gl_def)
  have 2: "render_overlay clearing_ctor detected_state drawn_gl = Some drawn_gl"
    by (simp add: render_overlay_nonempty [OF n] clearing_ctor_def drawn_gl_def blank_gl_def)
  from render_overlay_idempotent [of clearing_ctor captured_state drawn_gl] e p
  obtain g' g'' where "render_overlay clearing_ctor captured_state drawn_gl = Some g'"
    and "render_overlay clearing_ctor captured_state g' = Some g''"
    and "presented g' = presented drawn_gl" and "presented g'' = presented g'"
    by blast
  then have "\<exists>g'. render_overlay clearing_ctor captured_state drawn_gl = Some g' \<and>
         presented g' = presented drawn_gl \<and>
         (\<exists>g''. render_overlay clearing_ctor captured_state g' = Some g'' \<and>
                presented g'' = presented drawn_gl)"
    by auto
  with n e 1 2 show ?thesis
    by blast
qed

subsection \<open>C9: results that arrive after unmount\<close>

text \<open>C9 says that the flag keeps every late result from being applied, those of a capture and
  of a detection included. \<^verbatim>\<open>takePicture\<close> and \<^verbatim>\<open>detectFaces\<close> do not read the flag, which is
  local to the effect: with a capture and a detection in flight at unmount, their completions
  still call \<^verbatim>\<open>setImage\<close>, \<^verbatim>\<open>setDetections\<close> and \<^verbatim>\<open>setIsLoading\<close>.\<close>

theorem liveness_flag_counterexample:
  "\<not> isMounted unmounted_world \<and>
   enabled unmounted_world (CaptureSettled (Inr ''file:///photo2.jpg'')) \<and>
   event_effects sample_services unmounted_world (CaptureSettled (Inr ''file:///photo2.jpg'')) =
     [SetImage (Some ''file:///photo2.jpg'')] \<and>
   image_cell (cells unmounted_world) = None \<and>
   image_cell (cells (step sample_services unmounted_world
     (CaptureSettled (Inr ''file:///photo2.jpg'')))) = Some ''file:///photo2.jpg'' \<and>
   enabled unmounted_world (DetectionSettled 0) \<and>
   event_effects sample_services unmounted_world (DetectionSettled 0) =
     [SetDetections (detections detected_state), SetIsLoading False]"
  by (simp add: unmounted_world_eq takePicture_def detect_resume_def detected_state_eq
      try_block_def sample_services_def sample_prediction_def bind_err_def map_prediction_def
      mk_landmark_def js_index_def step_def run_effects_def)

text \<open>C9, amended: the flag guards the three results of the effect. When the permission
  response, the readiness of the runtime or the loaded model arrives after unmount, no setter
  is called and the cells keep their values; while mounted, each calls its setter. The
  completions of a capture and of a detection call their setters whatever the flag says.\<close>

theorem liveness_flag_scope:
  "(\<not> isMounted w \<longrightarrow>
      event_effects sv w (PermissionResolved status) = [] \<and>
      event_effects sv w TfReadyResolved = [] \<and>
      event_effects sv w (ModelLoaded m) = [] \<and>
      cells (step sv w (PermissionResolved status)) = cells w \<and>
      cells (step sv w TfReadyResolved) = cells w \<and>
      cells (step sv w (ModelLoaded m)) = cells w) \<and>
   (isMounted w \<longrightarrow>
      event_effects sv w (PermissionResolved status) = [SetHasPermission (status = ''granted'')] \<and>
      event_effects sv w TfReadyResolved = [SetIsTfReady True] \<and>
      event_effects sv w (ModelLoaded m) = [SetModel m]) \<and>
   event_effects sv (w\<lparr>isMounted := b\<rparr>) (CaptureSettled photo) =
     event_effects sv w (CaptureSettled photo) \<and>
   event_effects sv (w\<lparr>isMounted := b\<rparr>) (DetectionSettled i) =
     event_effects sv w (DetectionSettled i) \<and>
   event_effects sv w (CaptureSettled (Inr uri)) = [SetImage (Some uri)]"
  by (simp add: on_permission_def on_tf_ready_def on_model_loaded_def takePicture_def step_def
      run_effects_def)

theorem liveness_flag_scope_witness:
  "\<not> isMounted early_unmounted_world \<and>
   enabled early_unmounted_world TfReadyResolved \<and>
   event_effects sample_services early_unmounted_world TfReadyResolved = [] \<and>
   cells (step sample_services early_unmounted_world TfReadyResolved) =
     cells early_unmounted_world \<and>
   isMounted (initial_world :: (unit, int) world) \<and>
   event_effects sample_services (initial_world :: (unit, int) world)
     (PermissionResolved ''granted'') = [SetHasPermission True]"
proof -
  have u: "\<not> isMounted early_unmounted_world"
    by (simp add: early_unmounted_world_eq)
  have m: "isMounted (initial_world :: (unit, int) world)"
    by (simp add: initial_world_def)
  from liveness_flag_scope [of early_unmounted_world sample_services "''granted''" "()"] u
    liveness_flag_scope [of "initial_world :: (unit, int) world" sample_services "''granted''" "()"] m
  show ?thesis by (simp add: early_unmounted_world_eq)
qed

subsection \<open>C10: an empty detection set draws nothing\<close>



end
